theory Spec2Isabelle
  imports Complex_Main "HOL-Library.Multiset" "HOL-Library.Word"
begin

section \<open>The A3C algorithm core of \<open>rl/algorithms.py\<close> and the evaluation loop of \<open>perform.py\<close>\<close>

text \<open>
  TensorFlow, gym and the modules \<open>rl.policies\<close> and \<open>rl.trajectory\<close> are
  collaborators of the two source files and are not part of them. What the source does with
  them is modelled as follows: a TensorFlow variable is an identifier, the values of all
  variables form a store, a float tensor of rank one is a list of reals (exact arithmetic),
  and the answers of the collaborators (trajectories, advantage estimates, stop requests,
  environment steps) are inputs of the model.
\<close>

subsection \<open>Policies and the variable store\<close>

type_synonym var = nat
type_synonym tensor = "real list"
type_synonym store = "var \<Rightarrow> tensor"

text \<open>
  Of a policy object the algorithm uses \<open>var_list()\<close> and whether \<open>get_state()\<close>
  is \<open>None\<close> (\<open>recurrent\<close> is \<open>True\<close> when it is not).
\<close>

record policy =
  var_list :: "var list"
  recurrent :: bool

subsection \<open>Synchronization (\<open>BaseA3CAlgorithm.__init__\<close>, lines 25 to 33)\<close>

text \<open>\<open>v1.assign(v2)\<close>: the variable \<open>v1\<close> takes the value of \<open>v2\<close>.\<close>

definition assign :: "var \<Rightarrow> var \<Rightarrow> store \<Rightarrow> store" where
  "assign v1 v2 s = s(v1 := s v2)"

text \<open>
  \<open>sync_ops\<close> is \<open>None\<close> without a local policy; otherwise it groups one assignment
  per pair of \<open>zip(local_policy.var_list(), global_policy.var_list())\<close>.
\<close>

definition sync_ops_of :: "policy option \<Rightarrow> policy \<Rightarrow> (var \<times> var) list option" where
  "sync_ops_of local_policy global_policy =
     (case local_policy of
        Some lp \<Rightarrow> Some (zip (var_list lp) (var_list global_policy))
      | None \<Rightarrow> None)"

text \<open>\<open>self.local_policy = local_policy or global_policy\<close>.\<close>

definition local_policy_of :: "policy option \<Rightarrow> policy \<Rightarrow> policy" where
  "local_policy_of local_policy global_policy =
     (case local_policy of Some lp \<Rightarrow> lp | None \<Rightarrow> global_policy)"

text \<open>
  Running a \<open>tf.group\<close> of assignments runs each of them; the group fixes no order, so
  what is proved of it below is proved for every order of the grouped assignments.
\<close>

fun run_group :: "(var \<times> var) list \<Rightarrow> store \<Rightarrow> store" where
  "run_group [] s = s"
| "run_group ((v1, v2) # ops) s = run_group ops (assign v1 v2 s)"

subsection \<open>Failures\<close>

text \<open>
  What the source raises, as values: a shape mismatch of a TensorFlow operation
  (\<open>InvalidArgument\<close>), an index out of range, a negative array dimension
  (\<open>ValueError\<close>), a checkpoint that cannot be restored (\<open>NotFound\<close>), a
  \<open>sess.run\<close> on a monitored session after one of its hooks has requested a stop
  (\<open>RuntimeError\<close>). \<open>Starved\<close> stands for a call that never returns because the
  collaborator it waits for has nothing more to give.
\<close>

datatype failure = InvalidArgument | IndexError | ValueError | NotFound | RuntimeError | Starved

subsection \<open>The loss (\<open>BaseA3CAlgorithm.__init__\<close>, lines 46 to 55)\<close>

text \<open>
  An elementwise operation on two tensors of rank one: equal lengths pair up, a tensor of
  length one is broadcast, anything else is refused when the graph runs.
\<close>

definition elementwise :: "(real \<Rightarrow> real \<Rightarrow> real) \<Rightarrow> tensor \<Rightarrow> tensor \<Rightarrow> failure + tensor" where
  "elementwise f xs ys =
     (if length xs = length ys then Inr (map2 f xs ys)
      else if length xs = 1 then Inr (map (f (hd xs)) ys)
      else if length ys = 1 then Inr (map (\<lambda>x. f x (hd ys)) xs)
      else Inl InvalidArgument)"

definition reduce_sum :: "tensor \<Rightarrow> real" where
  "reduce_sum xs = sum_list xs"

definition square :: "tensor \<Rightarrow> tensor" where
  "square xs = map (\<lambda>x. x * x) xs"

text \<open>
  \<open>policy_loss = reduce_sum(pd.neglogp(actions) * advantages)\<close>, then
  \<open>policy_loss -= entropy_coef * reduce_sum(pd.entropy())\<close>. The tensors
  \<open>pd.neglogp(actions)\<close> and \<open>pd.entropy()\<close> come from the policy network and are
  arguments here.
\<close>

definition policy_loss :: "real \<Rightarrow> tensor \<Rightarrow> tensor \<Rightarrow> tensor \<Rightarrow> failure + real" where
  "policy_loss entropy_coef neglogp advantages entropy =
     (case elementwise (*) neglogp advantages of
        Inl e \<Rightarrow> Inl e
      | Inr weighted \<Rightarrow> Inr (reduce_sum weighted - entropy_coef * reduce_sum entropy))"

text \<open>
  \<open>v_loss = reduce_sum(square(squeeze(value_preds) - value_targets))\<close>; the argument
  \<open>value_preds\<close> is the squeezed tensor.
\<close>

definition v_loss :: "tensor \<Rightarrow> tensor \<Rightarrow> failure + real" where
  "v_loss value_preds value_targets =
     (case elementwise (-) value_preds value_targets of
        Inl e \<Rightarrow> Inl e
      | Inr diff \<Rightarrow> Inr (reduce_sum (square diff)))"

text \<open>\<open>loss = policy_loss + value_loss_coef * v_loss\<close>.\<close>

definition loss ::
  "real \<Rightarrow> real \<Rightarrow> tensor \<Rightarrow> tensor \<Rightarrow> tensor \<Rightarrow> tensor \<Rightarrow> tensor \<Rightarrow> failure + real" where
  "loss entropy_coef value_loss_coef neglogp advantages entropy value_preds value_targets =
     (case policy_loss entropy_coef neglogp advantages entropy of
        Inl e \<Rightarrow> Inl e
      | Inr pl \<Rightarrow>
          (case v_loss value_preds value_targets of
             Inl e \<Rightarrow> Inl e
           | Inr vl \<Rightarrow> Inr (pl + value_loss_coef * vl)))"

subsection \<open>Trajectories, queues and the constructor (\<open>BaseA3CAlgorithm.__init__\<close>)\<close>

type_synonym observation = "real list"
type_synonym action = int
type_synonym policy_state = "real list"

text \<open>
  The fields of a trajectory that \<open>algorithms.py\<close> reads. \<open>num_timesteps\<close> is a
  Python integer.
\<close>

record trajectory =
  observations :: "observation list"
  actions :: "action list"
  num_timesteps :: int
  policy_states :: "policy_state list"

text \<open>
  Queue objects live in a heap and are known by their address (the index in the heap), so
  that two references to one queue can be told from two queues. \<open>Queue n\<close> is
  \<open>queue.Queue(maxsize=n)\<close>: it allocates an empty queue.
\<close>

type_synonym addr = nat

record py_queue =
  maxsize :: nat
  items :: "trajectory list"

type_synonym heap = "py_queue list"

definition Queue :: "nat \<Rightarrow> heap \<Rightarrow> addr \<times> heap" where
  "Queue n h = (length h, h @ [\<lparr>maxsize = n, items = []\<rparr>])"

text \<open>
  \<open>put\<close> on the queue at an address; \<open>None\<close> when the caller would block (the queue
  is full) or the address holds no queue.
\<close>

definition queue_put :: "addr \<Rightarrow> trajectory \<Rightarrow> heap \<Rightarrow> heap option" where
  "queue_put a t h =
     (if a < length h \<and> length (items (h ! a)) < maxsize (h ! a)
      then Some (h[a := (h ! a)\<lparr>items := items (h ! a) @ [t]\<rparr>])
      else None)"

text \<open>
  Executing the \<open>class\<close> statement evaluates the default values of the parameters of
  \<open>__init__\<close>, once: \<open>queue=queue.Queue(maxsize=5)\<close> allocates the queue then, and
  the function object keeps the reference.
\<close>

record a3c_class =
  class_name :: string
  default_queue :: addr

definition define_class :: "heap \<Rightarrow> a3c_class \<times> heap" where
  "define_class h =
     (case Queue 5 h of
        (q, h') \<Rightarrow> (\<lparr>class_name = ''BaseA3CAlgorithm'', default_queue = q\<rparr>, h'))"

text \<open>
  The arguments of \<open>__init__\<close>. An optional argument that the caller leaves out is
  \<open>None\<close> here, and the parameter then takes its default value.
\<close>

type_synonym env = nat

record init_args =
  env_arg :: env
  trajectory_length_arg :: int
  global_policy_arg :: policy
  local_policy_arg :: "policy option"
  queue_arg :: "addr option"
  entropy_coef_arg :: "real option"
  value_loss_coef_arg :: "real option"
  name_arg :: "string option"

text \<open>The arguments \<open>TrajectoryProducer\<close> is constructed with.\<close>

record trajectory_producer =
  producer_env :: env
  producer_policy :: policy
  producer_trajectory_length :: int
  producer_queue :: addr

record a3c =
  sync_ops :: "(var \<times> var) list option"
  global_policy :: policy
  local_policy :: policy
  producer :: trajectory_producer
  scope_name :: string
  entropy_coef :: real
  value_loss_coef :: real

definition init :: "a3c_class \<Rightarrow> init_args \<Rightarrow> a3c" where
  "init cls args =
     (let queue = (case queue_arg args of None \<Rightarrow> default_queue cls | Some q \<Rightarrow> q);
          entropy_coef = (case entropy_coef_arg args of None \<Rightarrow> 0.01 | Some c \<Rightarrow> c);
          value_loss_coef = (case value_loss_coef_arg args of None \<Rightarrow> 0.25 | Some c \<Rightarrow> c);
          sync = sync_ops_of (local_policy_arg args) (global_policy_arg args);
          lp = local_policy_of (local_policy_arg args) (global_policy_arg args);
          name = (case name_arg args of None \<Rightarrow> class_name cls | Some n \<Rightarrow> n)
      in \<lparr>sync_ops = sync,
          global_policy = global_policy_arg args,
          local_policy = lp,
          producer = \<lparr>producer_env = env_arg args, producer_policy = lp,
                       producer_trajectory_length = trajectory_length_arg args,
                       producer_queue = queue\<rparr>,
          scope_name = name,
          entropy_coef = entropy_coef,
          value_loss_coef = value_loss_coef\<rparr>)"

text \<open>The loss tensors of an instance: the coefficients are those given to \<open>__init__\<close>.\<close>

definition a3c_policy_loss :: "a3c \<Rightarrow> tensor \<Rightarrow> tensor \<Rightarrow> tensor \<Rightarrow> failure + real" where
  "a3c_policy_loss alg = policy_loss (entropy_coef alg)"

definition a3c_loss ::
  "a3c \<Rightarrow> tensor \<Rightarrow> tensor \<Rightarrow> tensor \<Rightarrow> tensor \<Rightarrow> tensor \<Rightarrow> failure + real" where
  "a3c_loss alg = loss (entropy_coef alg) (value_loss_coef alg)"

subsection \<open>The feed (\<open>BaseA3CAlgorithm._get_feed_dict\<close>)\<close>

text \<open>The Python slice \<open>xs[:n]\<close>: a negative \<open>n\<close> counts from the end.\<close>

definition slice_to :: "'a list \<Rightarrow> int \<Rightarrow> 'a list" where
  "slice_to xs n =
     (if 0 \<le> n then take (nat n) xs else take (length xs - nat (- n)) xs)"

text \<open>
  The feed dictionary has a fixed set of keys, so it is a record: the placeholders
  \<open>local_policy.inputs\<close>, \<open>actions\<close>, \<open>advantages\<close>, \<open>value_targets\<close>, and
  \<open>local_policy.state_in\<close>, which is fed only for a policy with a state.
\<close>

record feed_dict =
  feed_inputs :: "observation list"
  feed_actions :: "action list"
  feed_advantages :: tensor
  feed_value_targets :: tensor
  feed_state_in :: "policy_state option"

text \<open>
  The collaborators whose code is outside the two source files, as functions: \<open>gae\<close> of
  \<open>rl.trajectory\<close> (it reads the policy's variables through the session), the policy
  network (\<open>pd.neglogp(actions)\<close>, \<open>pd.entropy()\<close> and the squeezed \<open>value_preds\<close>
  on a feed), and the optimizer's \<open>apply_gradients\<close> (the variables after its update).
\<close>

record collaborators =
  gae :: "store \<Rightarrow> trajectory \<Rightarrow> real \<Rightarrow> real \<Rightarrow> tensor \<times> tensor"
  network :: "store \<Rightarrow> feed_dict \<Rightarrow> tensor \<times> tensor \<times> tensor"
  apply_gradients :: "store \<Rightarrow> feed_dict \<Rightarrow> store"

subsection \<open>The session\<close>

text \<open>
  What the training loop does to the outside, in the order in which it does it. The
  session keeps this trace, oldest event first. A step is logged as the integer it stands
  for.
\<close>

datatype event =
    AddGraph
  | ReadStep int
  | LogBegin int
  | StartProducer
  | CheckStop bool
  | RunSync
  | NextTrajectory trajectory
  | Gae
  | RunSummaryTrain
  | LogLoss int real real
  | AddSummary int
  | RunTrain

text \<open>
  The state of the monitored session: the values of the variables, the global step (an
  \<open>int64\<close> variable), whether a hook has requested a stop, and the trace.
\<close>

record session =
  variables :: store
  global_step :: "64 word"
  stop_requested :: bool
  trace :: "event list"

definition emit :: "event \<Rightarrow> session \<Rightarrow> session" where
  "emit e s = s\<lparr>trace := trace s @ [e]\<rparr>"

text \<open>
  The hooks of a monitored session run after each \<open>sess.run\<close> and may request a stop;
  whether they do is an input (\<open>stop\<close>). A request stays.
\<close>

definition after_run :: "bool \<Rightarrow> session \<Rightarrow> session" where
  "after_run stop s = s\<lparr>stop_requested := stop_requested s \<or> stop\<rparr>"

text \<open>\<open>sess.should_stop()\<close>.\<close>

definition should_stop :: "session \<Rightarrow> bool \<times> session" where
  "should_stop s = (stop_requested s, emit (CheckStop (stop_requested s)) s)"

text \<open>
  Every \<open>sess.run\<close> of the monitored session first looks at the stop request: once a
  hook has requested a stop, the session raises \<open>RuntimeError\<close> (its message: run
  called even after should_stop requested) instead of running. Otherwise it runs what
  it is asked to, and then its hooks.

  \<open>sess.run(self.global_step)\<close>: the value read is a \<open>numpy.int64\<close>.
\<close>

definition run_global_step :: "bool \<Rightarrow> session \<Rightarrow> failure + (64 word \<times> session)" where
  "run_global_step stop s =
     (if stop_requested s then Inl RuntimeError
      else Inr (global_step s, after_run stop (emit (ReadStep (sint (global_step s))) s)))"

text \<open>\<open>sess.run(self.sync_ops)\<close>.\<close>

definition run_sync_ops :: "(var \<times> var) list \<Rightarrow> bool \<Rightarrow> session \<Rightarrow> failure + session" where
  "run_sync_ops ops stop s =
     (if stop_requested s then Inl RuntimeError
      else Inr (after_run stop (emit RunSync (s\<lparr>variables := run_group ops (variables s)\<rparr>))))"

text \<open>
  \<open>_get_feed_dict\<close>: the next trajectory of the producer (an input), its advantages and
  value targets from \<open>gae\<close>, and the feed built from them. \<open>policy_states[0]\<close> raises
  on an empty sequence. What \<open>gae\<close> does with the session it is handed is outside the
  two source files; here it reads the variables.
\<close>

definition get_feed_dict ::
  "collaborators \<Rightarrow> a3c \<Rightarrow> real \<Rightarrow> real \<Rightarrow> trajectory \<Rightarrow> session \<Rightarrow> failure + (feed_dict \<times> session)" where
  "get_feed_dict col alg gamma lam next_trajectory s =
     (let trajectory = next_trajectory;
          s1 = emit (NextTrajectory trajectory) s;
          (advantages, value_targets) = gae col (variables s1) trajectory gamma lam;
          s2 = emit Gae s1;
          feed = \<lparr>feed_inputs = slice_to (observations trajectory) (num_timesteps trajectory),
                  feed_actions = slice_to (actions trajectory) (num_timesteps trajectory),
                  feed_advantages = advantages,
                  feed_value_targets = value_targets,
                  feed_state_in = None\<rparr>
      in if recurrent (local_policy alg)
         then (case policy_states trajectory of
                 [] \<Rightarrow> Inl IndexError
               | st # _ \<Rightarrow> Inr (feed\<lparr>feed_state_in := Some st\<rparr>, s2))
         else Inr (feed, s2))"

subsection \<open>The train operation (\<open>BaseA3CAlgorithm._get_train_op\<close>)\<close>

text \<open>
  The train operation groups \<open>optimizer.apply_gradients\<close> with
  \<open>global_step.assign_add(batch_size)\<close>, where \<open>batch_size\<close> is the first dimension
  of the fed \<open>inputs\<close>, converted to \<open>int64\<close>; the addition wraps around at 64
  bits. The gradients are those of the loss, so the run evaluates the loss and fails where
  the loss does.
\<close>

definition train_op :: "collaborators \<Rightarrow> a3c \<Rightarrow> feed_dict \<Rightarrow> session \<Rightarrow> failure + session" where
  "train_op col alg feed s =
     (case network col (variables s) feed of
        (neglogp, entropy, value_preds) \<Rightarrow>
          (case a3c_loss alg neglogp (feed_advantages feed) entropy value_preds
                  (feed_value_targets feed) of
             Inl e \<Rightarrow> Inl e
           | Inr l \<Rightarrow>
               Inr (s\<lparr>variables := apply_gradients col (variables s) feed,
                      global_step := global_step s + of_nat (length (feed_inputs feed))\<rparr>)))"

text \<open>\<open>sess.run(train_op, feed_dict)\<close>.\<close>

definition run_train :: "collaborators \<Rightarrow> a3c \<Rightarrow> feed_dict \<Rightarrow> bool \<Rightarrow> session \<Rightarrow> failure + session" where
  "run_train col alg feed stop s =
     (if stop_requested s then Inl RuntimeError
      else (case train_op col alg feed s of
              Inl e \<Rightarrow> Inl e
            | Inr s' \<Rightarrow> Inr (after_run stop (emit RunTrain s'))))"

text \<open>
  \<open>sess.run([self.policy_loss, self.v_loss, self.summaries, train_op], feed_dict)[:-1]\<close>:
  the two losses are those of the fed batch on the variables before the update.
\<close>

definition run_summary_train ::
  "collaborators \<Rightarrow> a3c \<Rightarrow> feed_dict \<Rightarrow> bool \<Rightarrow> session \<Rightarrow> failure + ((real \<times> real) \<times> session)" where
  "run_summary_train col alg feed stop s =
     (if stop_requested s then Inl RuntimeError
      else (case network col (variables s) feed of
              (neglogp, entropy, value_preds) \<Rightarrow>
                (case a3c_policy_loss alg neglogp (feed_advantages feed) entropy of
                   Inl e \<Rightarrow> Inl e
                 | Inr pl \<Rightarrow>
                     (case v_loss value_preds (feed_value_targets feed) of
                        Inl e \<Rightarrow> Inl e
                      | Inr vl \<Rightarrow>
                          (case train_op col alg feed s of
                             Inl e \<Rightarrow> Inl e
                           | Inr s' \<Rightarrow>
                               Inr ((pl, vl), after_run stop (emit RunSummaryTrain s')))))))"

subsection \<open>The training loop (\<open>BaseA3CAlgorithm.train\<close>, lines 147 to 166)\<close>

text \<open>
  The arguments of \<open>train\<close> that the loop uses. \<open>num_steps\<close> is a Python integer,
  compared with the step as integers are. \<open>summary_period\<close> is a Python integer in the
  range of \<open>int64\<close>: it enters the \<open>numpy.int64\<close> arithmetic of the step and is
  held as the 64-bit value it has there.
\<close>

record train_args =
  num_steps :: int
  summary_period :: "64 word"
  gamma :: real
  gae_lambda :: real

text \<open>
  What the outside gives to one iteration of the loop: the trajectory that
  \<open>trajectory_producer.next()\<close> returns, and whether a hook requests a stop after each
  of the iteration's \<open>sess.run\<close> calls.
\<close>

record iteration_input =
  next_trajectory :: trajectory
  stop_after_sync :: bool
  stop_after_train :: bool
  stop_after_read :: bool

text \<open>
  The loop's variables: the session, \<open>step\<close> and \<open>last_summary_step\<close>. Both
  steps are \<open>numpy.int64\<close> values, whose subtraction wraps around.
\<close>

record loop_state =
  sess :: session
  step :: "64 word"
  last_summary_step :: "64 word"

text \<open>\<open>if self.sync_ops is not None: sess.run(self.sync_ops)\<close>.\<close>

definition maybe_sync :: "a3c \<Rightarrow> bool \<Rightarrow> session \<Rightarrow> failure + session" where
  "maybe_sync alg stop s =
     (case sync_ops alg of
        Some ops \<Rightarrow> run_sync_ops ops stop s
      | None \<Rightarrow> Inr s)"

text \<open>
  The body of the \<open>while\<close> loop, lines 153 to 166. The test of line 156 computes
  \<open>step - last_summary_step\<close> in \<open>int64\<close> and compares the signed result with the
  summary period.
\<close>

definition iteration ::
  "collaborators \<Rightarrow> a3c \<Rightarrow> train_args \<Rightarrow> iteration_input \<Rightarrow> loop_state \<Rightarrow> failure + loop_state" where
  "iteration col alg args w ls =
     (case maybe_sync alg (stop_after_sync w) (sess ls) of
        Inl e \<Rightarrow> Inl e
      | Inr s1 \<Rightarrow>
          (case get_feed_dict col alg (gamma args) (gae_lambda args) (next_trajectory w) s1 of
             Inl e \<Rightarrow> Inl e
           | Inr (feed, s2) \<Rightarrow>
               (case (if sint (step ls - last_summary_step ls) \<ge> sint (summary_period args)
                      then (case run_summary_train col alg feed (stop_after_train w) s2 of
                              Inl e \<Rightarrow> Inl e
                            | Inr ((pl, vl), s3) \<Rightarrow>
                                Inr (emit (AddSummary (sint (step ls)))
                                       (emit (LogLoss (sint (step ls)) pl vl) s3),
                                     step ls))
                      else (case run_train col alg feed (stop_after_train w) s2 of
                              Inl e \<Rightarrow> Inl e
                            | Inr s3 \<Rightarrow> Inr (s3, last_summary_step ls))) of
                  Inl e \<Rightarrow> Inl e
                | Inr (s4, marker) \<Rightarrow>
                    (case run_global_step (stop_after_read w) s4 of
                       Inl e \<Rightarrow> Inl e
                     | Inr (k, s5) \<Rightarrow>
                         Inr \<lparr>sess = s5, step = k, last_summary_step = marker\<rparr>))))"

text \<open>
  \<open>while not sess.should_stop() and step < num_steps\<close>. The list holds the inputs of
  the iterations to come; when the loop enters an iteration and the list is empty, the
  producer never delivers and the loop does not return (\<open>Starved\<close>).
\<close>

fun train_loop ::
  "collaborators \<Rightarrow> a3c \<Rightarrow> train_args \<Rightarrow> iteration_input list \<Rightarrow> loop_state \<Rightarrow> failure + loop_state" where
  "train_loop col alg args [] ls =
     (case should_stop (sess ls) of
        (stop, s) \<Rightarrow>
          if \<not> stop \<and> sint (step ls) < num_steps args then Inl Starved
          else Inr (ls\<lparr>sess := s\<rparr>))"
| "train_loop col alg args (w # ws) ls =
     (case should_stop (sess ls) of
        (stop, s) \<Rightarrow>
          if \<not> stop \<and> sint (step ls) < num_steps args
          then (case iteration col alg args w (ls\<lparr>sess := s\<rparr>) of
                  Inl e \<Rightarrow> Inl e
                | Inr ls' \<Rightarrow> train_loop col alg args ws ls')
          else Inr (ls\<lparr>sess := s\<rparr>))"

text \<open>
  \<open>train\<close> from line 146 on, on the session as \<open>_managed_session\<close> yields it: the
  graph is added to the summary writer, the step is read, \<open>last_summary_step\<close> is set to
  \<open>step - summary_period\<close>, the producer is started, and the loop runs.
\<close>

record world =
  stop_after_first_read :: bool
  iterations :: "iteration_input list"

definition train :: "collaborators \<Rightarrow> a3c \<Rightarrow> train_args \<Rightarrow> world \<Rightarrow> session \<Rightarrow> failure + loop_state" where
  "train col alg args wld s0 =
     (case run_global_step (stop_after_first_read wld) (emit AddGraph s0) of
        Inl e \<Rightarrow> Inl e
      | Inr (k, s1) \<Rightarrow>
          train_loop col alg args (iterations wld)
            \<lparr>sess = emit StartProducer (emit (LogBegin (sint k)) s1),
             step = k,
             last_summary_step = k - summary_period args\<rparr>)"

subsection \<open>Reading a trace\<close>

text \<open>The trajectories pulled from the producer, in order.\<close>

fun pulled :: "event list \<Rightarrow> trajectory list" where
  "pulled [] = []"
| "pulled (NextTrajectory t # es) = t # pulled es"
| "pulled (e # es) = pulled es"

text \<open>
  \<open>complete_iterations sync n k evs k'\<close>: the events \<open>evs\<close> are those of a sequence
  of whole loop iterations, the first entered at step \<open>k\<close> and the last left at step
  \<open>k'\<close>. Each iteration is entered after a check that found no stop and a step below
  \<open>n\<close>; it synchronizes (when \<open>sync\<close>), pulls a trajectory, estimates advantages,
  runs the update (alone, or with the losses and the summary), and reads the step.
\<close>

inductive complete_iterations :: "bool \<Rightarrow> int \<Rightarrow> int \<Rightarrow> event list \<Rightarrow> int \<Rightarrow> bool"
  for sync :: bool and n :: int where
  no_iteration: "complete_iterations sync n k [] k"
| plain_iteration:
    "k < n \<Longrightarrow> complete_iterations sync n k' evs k'' \<Longrightarrow>
     complete_iterations sync n k
       (CheckStop False # (if sync then [RunSync] else [])
          @ [NextTrajectory t, Gae, RunTrain, ReadStep k'] @ evs) k''"
| summary_iteration:
    "k < n \<Longrightarrow> complete_iterations sync n k' evs k'' \<Longrightarrow>
     complete_iterations sync n k
       (CheckStop False # (if sync then [RunSync] else [])
          @ [NextTrajectory t, Gae, RunSummaryTrain, LogLoss k pl vl, AddSummary k, ReadStep k']
          @ evs) k''"

text \<open>
  A trajectory whose recorded length is a length: not negative, and within the
  observations it holds.
\<close>

definition well_formed :: "trajectory \<Rightarrow> bool" where
  "well_formed t \<longleftrightarrow> 0 \<le> num_timesteps t \<and> num_timesteps t \<le> int (length (observations t))"

subsection \<open>A concrete run\<close>

text \<open>
  Inputs on which the definitions above are evaluated: a class, an instance with a local
  policy of its own, collaborators that answer with tensors of the batch's length, a
  trajectory of three slots of which two are filled, and an outside in which a hook
  requests a stop after the step read of the second iteration.
\<close>

definition example_class :: a3c_class where
  "example_class = \<lparr>class_name = ''BaseA3CAlgorithm'', default_queue = 0\<rparr>"

definition example_alg :: a3c where
  "example_alg = init example_class
     \<lparr>env_arg = 0, trajectory_length_arg = 3,
      global_policy_arg = \<lparr>var_list = [0, 1], recurrent = False\<rparr>,
      local_policy_arg = Some \<lparr>var_list = [2, 3], recurrent = False\<rparr>,
      queue_arg = None, entropy_coef_arg = None, value_loss_coef_arg = None,
      name_arg = None\<rparr>"

definition example_collaborators :: collaborators where
  "example_collaborators =
     \<lparr>gae = (\<lambda>vars t g l. (replicate (nat (num_timesteps t)) 1,
                             replicate (nat (num_timesteps t)) 0)),
      network = (\<lambda>vars feed. (replicate (length (feed_inputs feed)) 1,
                               replicate (length (feed_inputs feed)) 1,
                               replicate (length (feed_inputs feed)) 0)),
      apply_gradients = (\<lambda>vars feed. vars)\<rparr>"


definition example_trajectory :: trajectory where
  "example_trajectory =
     \<lparr>observations = [[0], [1], [2]], actions = [0, 1, 0], num_timesteps = 2,
      policy_states = []\<rparr>"

definition example_args :: train_args where
  "example_args = \<lparr>num_steps = 100, summary_period = 10, gamma = 0.99, gae_lambda = 0.95\<rparr>"

definition example_world :: world where
  "example_world =
     \<lparr>stop_after_first_read = False,
      iterations =
        [\<lparr>next_trajectory = example_trajectory, stop_after_sync = False,
          stop_after_train = False, stop_after_read = False\<rparr>,
         \<lparr>next_trajectory = example_trajectory, stop_after_sync = False,
          stop_after_train = False, stop_after_read = True\<rparr>]\<rparr>"

definition example_session :: session where
  "example_session =
     \<lparr>variables = (\<lambda>v. []), global_step = 0, stop_requested = False, trace = []\<rparr>"

text \<open>The loop's variables when that run returns.\<close>

definition example_final :: loop_state where
  "example_final =
     \<lparr>sess = \<lparr>variables = (\<lambda>v. []), global_step = 4, stop_requested = True,
              trace = [AddGraph, ReadStep 0, LogBegin 0, StartProducer,
                       CheckStop False, RunSync, NextTrajectory example_trajectory, Gae,
                       RunSummaryTrain, LogLoss 0 (198 / 100) 0, AddSummary 0, ReadStep 2,
                       CheckStop False, RunSync, NextTrajectory example_trajectory, Gae,
                       RunTrain, ReadStep 4, CheckStop True]\<rparr>,
      step = 4, last_summary_step = 0\<rparr>"

subsection \<open>The managed session (\<open>BaseA3CAlgorithm._managed_session\<close>)\<close>

text \<open>
  A session hook is a checkpoint saver (with its directory and \<open>save_steps\<close>) or some
  other hook.
\<close>

datatype hook = CheckpointSaverHook string int | OtherHook nat

fun is_checkpoint_saver :: "hook \<Rightarrow> bool" where
  "is_checkpoint_saver (CheckpointSaverHook d p) = True"
| "is_checkpoint_saver (OtherHook h) = False"

record config_proto =
  intra_op_parallelism_threads :: int
  inter_op_parallelism_threads :: int

definition get_default_config :: config_proto where
  "get_default_config = \<lparr>intra_op_parallelism_threads = 1, inter_op_parallelism_threads = 2\<rparr>"

text \<open>The \<open>config\<close> argument: the marker \<open>USE_DEFAULT\<close>, or what the caller passes.\<close>

datatype config_arg = USE_DEFAULT | Config "config_proto option"

text \<open>
  What \<open>_managed_session\<close> opens: the hooks and the configuration the session is
  created with, the checkpoint restored into it, and the warnings logged on the way.
\<close>

record managed =
  session_hooks :: "hook list"
  session_config :: "config_proto option"
  restored_from :: "string option"
  warnings :: "string list"

definition no_saver_warning :: string where
  "no_saver_warning =
     ''Starting training without checkpoint saver hook. No checkpoint period provided and no explicit saver hook specified.''"

text \<open>
  \<open>restorable\<close> tells whether \<open>saver.restore\<close> succeeds on a checkpoint path; where
  it does not, the restore raises.
\<close>

definition managed_session ::
  "(string \<Rightarrow> bool) \<Rightarrow> string \<Rightarrow> string option \<Rightarrow> int option \<Rightarrow> hook list option \<Rightarrow> config_arg
     \<Rightarrow> failure + managed" where
  "managed_session restorable checkpoint_dir checkpoint checkpoint_period hooks config =
     (let config' = (case config of USE_DEFAULT \<Rightarrow> Some get_default_config | Config c \<Rightarrow> c);
          hooks0 = (case hooks of None \<Rightarrow> [] | Some hs \<Rightarrow> hs);
          (hooks1, logged) =
            (case checkpoint_period of
               Some p \<Rightarrow> (hooks0 @ [CheckpointSaverHook checkpoint_dir p], [])
             | None \<Rightarrow>
                 if \<not> list_ex is_checkpoint_saver hooks0 then (hooks0, [no_saver_warning])
                 else (hooks0, []));
          opened = \<lparr>session_hooks = hooks1, session_config = config',
                    restored_from = None, warnings = logged\<rparr>
      in case checkpoint of
           None \<Rightarrow> Inr opened
         | Some c \<Rightarrow>
             if restorable c then Inr (opened\<lparr>restored_from := Some c\<rparr>) else Inl NotFound)"

text \<open>
  \<open>train\<close> as a whole: the body runs inside the managed session, on the session's
  contents \<open>s0\<close> once it is open.
\<close>

record session_args =
  logdir :: string
  checkpoint :: "string option"
  checkpoint_period :: "int option"
  hooks :: "hook list option"
  config :: config_arg

definition train_managed ::
  "(string \<Rightarrow> bool) \<Rightarrow> collaborators \<Rightarrow> a3c \<Rightarrow> train_args \<Rightarrow> session_args \<Rightarrow> world \<Rightarrow> session
     \<Rightarrow> failure + (managed \<times> loop_state)" where
  "train_managed restorable col alg args sargs wld s0 =
     (case managed_session restorable (logdir sargs) (checkpoint sargs) (checkpoint_period sargs)
             (hooks sargs) (config sargs) of
        Inl e \<Rightarrow> Inl e
      | Inr opened \<Rightarrow>
          (case train col alg args wld s0 of
             Inl e \<Rightarrow> Inl e
           | Inr ls \<Rightarrow> Inr (opened, ls)))"

subsection \<open>Floating point\<close>



subsection \<open>Evaluation (\<open>main\<close> of \<open>perform.py\<close>, lines 62 to 81)\<close>












section \<open>Verified properties\<close>

subsection \<open>Synchronization\<close>

lemma run_group_untouched:
  "v \<notin> fst ` set ops \<Longrightarrow> run_group ops s v = s v"
  by (induction ops arbitrary: s) (auto simp: assign_def)

lemma run_group_copies:
  assumes "distinct (map fst ops)" and "fst ` set ops \<inter> snd ` set ops = {}"
    and "(v1, v2) \<in> set ops"
  shows "run_group ops s v1 = s v2"
  using assms
proof (induction ops arbitrary: s)
  case Nil
  then show ?case by simp
next
  case (Cons p ops)
  obtain a b where p: "p = (a, b)" by (cases p)
  show ?case
  proof (cases "(v1, v2) = (a, b)")
    case True
    with Cons.prems p have "v1 \<notin> fst ` set ops" by force
    then have "run_group ops (assign a b s) v1 = assign a b s v1"
      by (rule run_group_untouched)
    with True p show ?thesis by (simp add: assign_def)
  next
    case False
    with Cons.prems p have mem: "(v1, v2) \<in> set ops" by auto
    from Cons.prems p have d: "distinct (map fst ops)"
      and i: "fst ` set ops \<inter> snd ` set ops = {}" by auto
    have "run_group ops (assign a b s) v1 = assign a b s v2"
      using Cons.IH [OF d i mem] .
    moreover have "v2 \<noteq> a"
      using Cons.prems(2) mem p by force
    ultimately show ?thesis using p by (simp add: assign_def)
  qed
qed

lemma zip_vars_distinct:
  "distinct ls \<Longrightarrow> distinct (map fst (zip ls gs))"
  by (simp add: map_fst_zip_take)

text \<open>
  C1. With a local policy configured whose variables are pairwise distinct and are not
  variables of the global policy, running the synchronization operation, in any order of
  its assignments, leaves at every position \<open>i\<close> paired by \<open>zip\<close> the value of the
  \<open>i\<close>-th global parameter in the \<open>i\<close>-th local parameter, and changes no global
  parameter.
\<close>

theorem sync_copies_global_to_local:
  assumes "sync_ops_of (Some lp) gp = Some ops"
    and "distinct (var_list lp)"
    and "set (var_list lp) \<inter> set (var_list gp) = {}"
    and "mset order = mset ops"
  shows "(\<forall>i < min (length (var_list lp)) (length (var_list gp)).
            run_group order s (var_list lp ! i) = s (var_list gp ! i))
         \<and> (\<forall>v \<in> set (var_list gp). run_group order s v = s v)"
proof -
  have ops: "ops = zip (var_list lp) (var_list gp)"
    using assms(1) by (simp add: sync_ops_of_def)
  have set_eq: "set order = set ops"
    using assms(4) by (rule mset_eq_setD)
  have "distinct (map fst ops)"
    unfolding ops using assms(2) by (rule zip_vars_distinct)
  moreover have "mset (map fst order) = mset (map fst ops)"
    using assms(4) by simp
  ultimately have d: "distinct (map fst order)"
    by (metis mset_eq_imp_distinct_iff)
  have fst_sub: "fst ` set order \<subseteq> set (var_list lp)"
    unfolding set_eq ops by (auto dest: set_zip_leftD)
  have snd_sub: "snd ` set order \<subseteq> set (var_list gp)"
    unfolding set_eq ops by (auto dest: set_zip_rightD)
  have disj: "fst ` set order \<inter> snd ` set order = {}"
    using fst_sub snd_sub assms(3) by blast
  have copies: "run_group order s (var_list lp ! i) = s (var_list gp ! i)"
    if "i < min (length (var_list lp)) (length (var_list gp))" for i
  proof -
    have "(var_list lp ! i, var_list gp ! i) \<in> set order"
      unfolding set_eq ops using that by (auto simp: set_zip)
    with d disj show ?thesis by (rule run_group_copies)
  qed
  have frame: "run_group order s v = s v" if "v \<in> set (var_list gp)" for v
  proof -
    have "v \<notin> fst ` set order" using that fst_sub assms(3) by blast
    then show ?thesis by (rule run_group_untouched)
  qed
  from copies frame show ?thesis by blast
qed

theorem sync_copies_global_to_local_witness:
  "sync_ops_of (Some \<lparr>var_list = [0, 1], recurrent = False\<rparr>)
       \<lparr>var_list = [2, 3], recurrent = False\<rparr> = Some [(0, 2), (1, 3)]
   \<and> distinct [0::nat, 1]
   \<and> set [0::nat, 1] \<inter> set [2, 3] = {}
   \<and> mset [(1::nat, 3::nat), (0, 2)] = mset [(0, 2), (1, 3)]
   \<and> run_group [(1, 3), (0, 2)] (\<lambda>v. [real v]) 0 = [2]
   \<and> run_group [(1, 3), (0, 2)] (\<lambda>v. [real v]) 1 = [3]
   \<and> run_group [(1, 3), (0, 2)] (\<lambda>v. [real v]) 2 = [2]
   \<and> run_group [(1, 3), (0, 2)] (\<lambda>v. [real v]) 3 = [3]"
proof -
  let ?lp = "\<lparr>var_list = [0, 1], recurrent = False\<rparr>"
  let ?gp = "\<lparr>var_list = [2, 3], recurrent = False\<rparr>"
  have h1: "sync_ops_of (Some ?lp) ?gp = Some [(0, 2), (1, 3)]"
    by (simp add: sync_ops_of_def)
  have h2: "distinct (var_list ?lp)" by simp
  have h3: "set (var_list ?lp) \<inter> set (var_list ?gp) = {}" by simp
  have h4: "mset [(1::nat, 3::nat), (0, 2)] = mset [(0, 2), (1, 3)]" by simp
  have c: "(\<forall>i < min (length (var_list ?lp)) (length (var_list ?gp)).
              run_group [(1, 3), (0, 2)] (\<lambda>v. [real v]) (var_list ?lp ! i)
                = [real (var_list ?gp ! i)])
         \<and> (\<forall>v \<in> set (var_list ?gp). run_group [(1, 3), (0, 2)] (\<lambda>v. [real v]) v = [real v])"
    using sync_copies_global_to_local [OF h1 h2 h3 h4, of "\<lambda>v. [real v]"] .
  with h1 h4 show ?thesis by (simp add: assign_def)
qed

subsection \<open>The loss\<close>

lemma sum_list_map2_nth:
  assumes "length xs = n" and "length ys = n"
  shows "sum_list (map2 f xs ys) = (\<Sum>i<n. (f (xs ! i) (ys ! i) :: real))"
proof -
  have "sum_list (map2 f xs ys) = (\<Sum>i = 0..<length (map2 f xs ys). map2 f xs ys ! i)"
    by (rule sum_list_sum_nth)
  also have "\<dots> = (\<Sum>i = 0..<n. f (xs ! i) (ys ! i))"
    using assms by (intro sum.cong) auto
  finally show ?thesis by (simp add: atLeast0LessThan)
qed

lemma sum_list_nth_real:
  "length xs = n \<Longrightarrow> sum_list xs = (\<Sum>i<n. (xs ! i :: real))"
  by (simp add: sum_list_sum_nth atLeast0LessThan)

lemma policy_loss_batch:
  assumes "length neglogp = n" and "length advantages = n" and "length entropy = n"
  shows "policy_loss c neglogp advantages entropy =
           Inr ((\<Sum>i<n. neglogp ! i * advantages ! i) - c * (\<Sum>i<n. entropy ! i))"
  using assms
  by (simp add: policy_loss_def elementwise_def reduce_sum_def
      sum_list_map2_nth [of neglogp n advantages] sum_list_nth_real [of entropy n])

lemma v_loss_batch:
  assumes "length value_preds = n" and "length value_targets = n"
  shows "v_loss value_preds value_targets =
           Inr (\<Sum>i<n. (value_preds ! i - value_targets ! i)\<^sup>2)"
proof -
  have "sum_list (square (map2 (-) value_preds value_targets))
          = sum_list (map2 (\<lambda>p t. (p - t) * (p - t)) value_preds value_targets)"
    by (simp add: square_def split_def comp_def)
  also have "\<dots> = (\<Sum>i<n. (value_preds ! i - value_targets ! i) * (value_preds ! i - value_targets ! i))"
    using assms by (rule sum_list_map2_nth)
  finally show ?thesis
    using assms by (simp add: v_loss_def elementwise_def reduce_sum_def power2_eq_square)
qed

text \<open>
  C2. For an instance built by \<open>__init__\<close> and tensors over a batch of \<open>n\<close> steps:
  the policy loss is the sum over the batch of the negative log-probability of the action
  taken times the advantage, minus the entropy coefficient times the sum of the entropies;
  the value loss is the sum of the squared differences between predicted values and value
  targets; the loss is the policy loss plus the value-loss coefficient times the value
  loss. A caller that passes no coefficients gets \<open>0.01\<close> and \<open>0.25\<close>.
\<close>

theorem loss_composition:
  assumes "alg = init cls args"
    and "length neglogp = n" and "length advantages = n" and "length entropy = n"
    and "length value_preds = n" and "length value_targets = n"
  shows "a3c_policy_loss alg neglogp advantages entropy =
           Inr ((\<Sum>i<n. neglogp ! i * advantages ! i) - entropy_coef alg * (\<Sum>i<n. entropy ! i))
       \<and> v_loss value_preds value_targets =
           Inr (\<Sum>i<n. (value_preds ! i - value_targets ! i)\<^sup>2)
       \<and> a3c_loss alg neglogp advantages entropy value_preds value_targets =
           Inr (((\<Sum>i<n. neglogp ! i * advantages ! i) - entropy_coef alg * (\<Sum>i<n. entropy ! i))
                + value_loss_coef alg * (\<Sum>i<n. (value_preds ! i - value_targets ! i)\<^sup>2))
       \<and> (entropy_coef_arg args = None \<longrightarrow> entropy_coef alg = 0.01)
       \<and> (value_loss_coef_arg args = None \<longrightarrow> value_loss_coef alg = 0.25)
       \<and> (\<forall>c. entropy_coef_arg args = Some c \<longrightarrow> entropy_coef alg = c)
       \<and> (\<forall>c. value_loss_coef_arg args = Some c \<longrightarrow> value_loss_coef alg = c)"
proof -
  have pl: "policy_loss (entropy_coef alg) neglogp advantages entropy =
      Inr ((\<Sum>i<n. neglogp ! i * advantages ! i) - entropy_coef alg * (\<Sum>i<n. entropy ! i))"
    using assms(2-4) by (rule policy_loss_batch)
  have vl: "v_loss value_preds value_targets =
      Inr (\<Sum>i<n. (value_preds ! i - value_targets ! i)\<^sup>2)"
    using assms(5,6) by (rule v_loss_batch)
  have l: "a3c_loss alg neglogp advantages entropy value_preds value_targets =
      Inr (((\<Sum>i<n. neglogp ! i * advantages ! i) - entropy_coef alg * (\<Sum>i<n. entropy ! i))
           + value_loss_coef alg * (\<Sum>i<n. (value_preds ! i - value_targets ! i)\<^sup>2))"
    by (simp add: a3c_loss_def loss_def pl vl)
  have d: "(entropy_coef_arg args = None \<longrightarrow> entropy_coef alg = 0.01)
       \<and> (value_loss_coef_arg args = None \<longrightarrow> value_loss_coef alg = 0.25)
       \<and> (\<forall>c. entropy_coef_arg args = Some c \<longrightarrow> entropy_coef alg = c)
       \<and> (\<forall>c. value_loss_coef_arg args = Some c \<longrightarrow> value_loss_coef alg = c)"
    by (simp add: assms(1) init_def Let_def)
  from pl vl l d show ?thesis by (simp add: a3c_policy_loss_def)
qed

theorem loss_composition_witness:
  "length [1, 2 :: real] = 2 \<and> length [3, 4 :: real] = 2 \<and> length [1, 1 :: real] = 2
   \<and> length [0, 0 :: real] = 2
   \<and> a3c_policy_loss
         (init \<lparr>class_name = ''BaseA3CAlgorithm'', default_queue = 0\<rparr>
            \<lparr>env_arg = 0, trajectory_length_arg = 5,
             global_policy_arg = \<lparr>var_list = [0, 1], recurrent = False\<rparr>,
             local_policy_arg = None, queue_arg = None, entropy_coef_arg = None,
             value_loss_coef_arg = None, name_arg = None\<rparr>)
         [1, 2] [3, 4] [1, 1] = Inr (1098 / 100)
   \<and> v_loss [1, 2] [0, 0] = Inr 5
   \<and> a3c_loss
         (init \<lparr>class_name = ''BaseA3CAlgorithm'', default_queue = 0\<rparr>
            \<lparr>env_arg = 0, trajectory_length_arg = 5,
             global_policy_arg = \<lparr>var_list = [0, 1], recurrent = False\<rparr>,
             local_policy_arg = None, queue_arg = None, entropy_coef_arg = None,
             value_loss_coef_arg = None, name_arg = None\<rparr>)
         [1, 2] [3, 4] [1, 1] [1, 2] [0, 0] = Inr (1223 / 100)"
proof -
  let ?cls = "\<lparr>class_name = ''BaseA3CAlgorithm'', default_queue = 0\<rparr>"
  let ?args = "\<lparr>env_arg = 0, trajectory_length_arg = 5,
             global_policy_arg = \<lparr>var_list = [0, 1], recurrent = False\<rparr>,
             local_policy_arg = None, queue_arg = None, entropy_coef_arg = None,
             value_loss_coef_arg = None, name_arg = None\<rparr>"
  have l: "length [1, 2 :: real] = 2" "length [3, 4 :: real] = 2" "length [1, 1 :: real] = 2"
    "length [0, 0 :: real] = 2"
    by simp_all
  have two: "{..<2::nat} = {0, 1}" by auto
  have coefs: "entropy_coef (init ?cls ?args) = 1 / 100" "value_loss_coef (init ?cls ?args) = 1 / 4"
    by (simp_all add: init_def Let_def)
  show ?thesis
    using loss_composition [OF refl l(1) l(2) l(3) l(1) l(4), of ?cls ?args]
    by (simp add: two coefs)
qed

subsection \<open>The default queue\<close>

text \<open>
  C9. The default value of the \<open>queue\<close> parameter is one queue of capacity 5, allocated
  when the class is defined. Every instance constructed without a \<open>queue\<close> argument
  hands that same queue to its trajectory producer: two such instances hold the same
  address, and a trajectory put through the one is in the queue of the other.
\<close>

theorem default_queue_shared:
  assumes "define_class h = (cls, h')"
    and "queue_arg args1 = None" and "queue_arg args2 = None"
  shows "producer_queue (producer (init cls args1)) = default_queue cls
       \<and> producer_queue (producer (init cls args2)) = producer_queue (producer (init cls args1))
       \<and> length h' = Suc (length h)
       \<and> default_queue cls < length h'
       \<and> h' ! default_queue cls = \<lparr>maxsize = 5, items = []\<rparr>
       \<and> map_option (\<lambda>h''. items (h'' ! producer_queue (producer (init cls args2))))
            (queue_put (producer_queue (producer (init cls args1))) t h') = Some [t]"
proof -
  have cls: "cls = \<lparr>class_name = ''BaseA3CAlgorithm'', default_queue = length h\<rparr>"
    and h': "h' = h @ [\<lparr>maxsize = 5, items = []\<rparr>]"
    using assms(1) by (auto simp: define_class_def Queue_def)
  have q1: "producer_queue (producer (init cls args1)) = default_queue cls"
    using assms(2) by (simp add: init_def Let_def)
  have q2: "producer_queue (producer (init cls args2)) = default_queue cls"
    using assms(3) by (simp add: init_def Let_def)
  have d: "default_queue cls = length h" by (simp add: cls)
  show ?thesis
    unfolding q1 q2 d by (simp add: h' queue_put_def)
qed

theorem default_queue_shared_witness:
  "define_class [] = (\<lparr>class_name = ''BaseA3CAlgorithm'', default_queue = 0\<rparr>,
                      [\<lparr>maxsize = 5, items = []\<rparr>])
   \<and> producer_queue (producer (init \<lparr>class_name = ''BaseA3CAlgorithm'', default_queue = 0\<rparr>
        \<lparr>env_arg = 0, trajectory_length_arg = 5,
         global_policy_arg = \<lparr>var_list = [0, 1], recurrent = False\<rparr>,
         local_policy_arg = None, queue_arg = None, entropy_coef_arg = None,
         value_loss_coef_arg = None, name_arg = None\<rparr>)) = 0
   \<and> producer_queue (producer (init \<lparr>class_name = ''BaseA3CAlgorithm'', default_queue = 0\<rparr>
        \<lparr>env_arg = 1, trajectory_length_arg = 20,
         global_policy_arg = \<lparr>var_list = [0, 1], recurrent = False\<rparr>,
         local_policy_arg = Some \<lparr>var_list = [2, 3], recurrent = False\<rparr>,
         queue_arg = None, entropy_coef_arg = Some 0, value_loss_coef_arg = None,
         name_arg = Some ''worker''\<rparr>)) = 0"
proof -
  let ?cls = "\<lparr>class_name = ''BaseA3CAlgorithm'', default_queue = 0\<rparr>"
  let ?a1 = "\<lparr>env_arg = 0, trajectory_length_arg = 5,
         global_policy_arg = \<lparr>var_list = [0, 1], recurrent = False\<rparr>,
         local_policy_arg = None, queue_arg = None, entropy_coef_arg = None,
         value_loss_coef_arg = None, name_arg = None\<rparr>"
  let ?a2 = "\<lparr>env_arg = 1, trajectory_length_arg = 20,
         global_policy_arg = \<lparr>var_list = [0, 1], recurrent = False\<rparr>,
         local_policy_arg = Some \<lparr>var_list = [2, 3], recurrent = False\<rparr>,
         queue_arg = None, entropy_coef_arg = Some 0, value_loss_coef_arg = None,
         name_arg = Some ''worker''\<rparr>"
  have d: "define_class [] = (?cls, [\<lparr>maxsize = 5, items = []\<rparr>])"
    by (simp add: define_class_def Queue_def)
  have n1: "queue_arg ?a1 = None" and n2: "queue_arg ?a2 = None" by simp_all
  show ?thesis
    using d default_queue_shared [OF d n1 n2] by simp
qed

subsection \<open>The session, the feed and one iteration\<close>

lemma emit_simps [simp]:
  "trace (emit e s) = trace s @ [e]"
  "variables (emit e s) = variables s"
  "global_step (emit e s) = global_step s"
  "stop_requested (emit e s) = stop_requested s"
  by (simp_all add: emit_def)

lemma after_run_simps [simp]:
  "trace (after_run b s) = trace s"
  "variables (after_run b s) = variables s"
  "global_step (after_run b s) = global_step s"
  "stop_requested (after_run b s) = (stop_requested s \<or> b)"
  by (simp_all add: after_run_def)

lemma maybe_sync_Inr:
  assumes "maybe_sync alg b s = Inr s1"
  shows "trace s1 = trace s @ (if sync_ops alg = None then [] else [RunSync])"
    and "global_step s1 = global_step s"
    and "stop_requested s1 = (stop_requested s \<or> sync_ops alg \<noteq> None \<and> b)"
  using assms
  by (auto simp: maybe_sync_def run_sync_ops_def split: option.splits if_splits)

lemma get_feed_dict_Inr:
  assumes "get_feed_dict col alg g l t s = Inr (feed, s')"
  shows "feed_inputs feed = slice_to (observations t) (num_timesteps t)"
    and "feed_actions feed = slice_to (actions t) (num_timesteps t)"
    and "feed_advantages feed = fst (gae col (variables s) t g l)"
    and "feed_value_targets feed = snd (gae col (variables s) t g l)"
    and "trace s' = trace s @ [NextTrajectory t, Gae]"
    and "global_step s' = global_step s"
    and "variables s' = variables s"
    and "stop_requested s' = stop_requested s"
  using assms
  by (auto simp: get_feed_dict_def Let_def split_def split: if_splits list.splits)

lemma train_op_Inr:
  assumes "train_op col alg feed s = Inr s'"
  shows "global_step s' = global_step s + of_nat (length (feed_inputs feed))"
    and "variables s' = apply_gradients col (variables s) feed"
    and "trace s' = trace s"
    and "stop_requested s' = stop_requested s"
  using assms
  by (auto simp: train_op_def split: prod.splits sum.splits)

lemma run_train_Inr:
  assumes "run_train col alg feed b s = Inr s'"
  shows "global_step s' = global_step s + of_nat (length (feed_inputs feed))"
    and "variables s' = apply_gradients col (variables s) feed"
    and "trace s' = trace s @ [RunTrain]"
    and "\<not> stop_requested s"
    and "stop_requested s' = b"
  using assms
  by (auto simp: run_train_def split: sum.splits if_splits dest: train_op_Inr)

lemma run_summary_train_Inr:
  assumes "run_summary_train col alg feed b s = Inr ((pl, vl), s')"
  shows "global_step s' = global_step s + of_nat (length (feed_inputs feed))"
    and "variables s' = apply_gradients col (variables s) feed"
    and "trace s' = trace s @ [RunSummaryTrain]"
    and "a3c_policy_loss alg (fst (network col (variables s) feed)) (feed_advantages feed)
           (fst (snd (network col (variables s) feed))) = Inr pl"
    and "v_loss (snd (snd (network col (variables s) feed))) (feed_value_targets feed) = Inr vl"
    and "\<not> stop_requested s"
    and "stop_requested s' = b"
  using assms
  by (auto simp: run_summary_train_def split: sum.splits prod.splits if_splits dest: train_op_Inr)

lemma run_global_step_Inr:
  assumes "run_global_step b s = Inr (k, s')"
  shows "k = global_step s"
    and "s' = after_run b (emit (ReadStep (sint (global_step s))) s)"
    and "\<not> stop_requested s"
  using assms by (auto simp: run_global_step_def split: if_splits)

lemma iteration_due:
  assumes "iteration col alg args w ls = Inr ls'"
    and "sint (summary_period args) \<le> sint (step ls - last_summary_step ls)"
  obtains s1 feed s2 pl vl s3 where
    "maybe_sync alg (stop_after_sync w) (sess ls) = Inr s1"
    and "get_feed_dict col alg (gamma args) (gae_lambda args) (next_trajectory w) s1
           = Inr (feed, s2)"
    and "run_summary_train col alg feed (stop_after_train w) s2 = Inr ((pl, vl), s3)"
    and "sess ls' = after_run (stop_after_read w)
           (emit (ReadStep (sint (global_step s3)))
             (emit (AddSummary (sint (step ls))) (emit (LogLoss (sint (step ls)) pl vl) s3)))"
    and "step ls' = global_step s3"
    and "last_summary_step ls' = step ls"
  using assms
  by (auto simp: iteration_def run_global_step_def
      split: sum.splits prod.splits if_splits)

lemma iteration_not_due:
  assumes "iteration col alg args w ls = Inr ls'"
    and "\<not> sint (summary_period args) \<le> sint (step ls - last_summary_step ls)"
  obtains s1 feed s2 s3 where
    "maybe_sync alg (stop_after_sync w) (sess ls) = Inr s1"
    and "get_feed_dict col alg (gamma args) (gae_lambda args) (next_trajectory w) s1
           = Inr (feed, s2)"
    and "run_train col alg feed (stop_after_train w) s2 = Inr s3"
    and "sess ls' = after_run (stop_after_read w) (emit (ReadStep (sint (global_step s3))) s3)"
    and "step ls' = global_step s3"
    and "last_summary_step ls' = last_summary_step ls"
  using assms
  by (auto simp: iteration_def run_global_step_def
      split: sum.splits prod.splits if_splits)

lemma sint_add_no_overflow:
  fixes a :: "64 word"
  assumes "0 \<le> k" and "sint a + k < 2 ^ 63"
  shows "sint (a + word_of_int k) = sint a + k"
proof -
  have "a + word_of_int k = word_of_int (sint a + k)" by simp
  then have "sint (a + word_of_int k) = signed_take_bit 63 (sint a + k)"
    by (simp only: sint_sbintrunc') simp
  moreover have "- (2 ^ 63) \<le> sint a + k"
    using sint_ge [of a] assms(1) by simp
  ultimately show ?thesis
    using assms(2) by (simp add: signed_take_bit_int_eq_self)
qed

lemma slice_to_length:
  "0 \<le> n \<Longrightarrow> n \<le> int (length xs) \<Longrightarrow> length (slice_to xs n) = nat n"
  by (simp add: slice_to_def)

lemma iteration_global_step:
  assumes "iteration col alg args w ls = Inr ls'"
  shows "global_step (sess ls') = global_step (sess ls)
           + of_nat (length (slice_to (observations (next_trajectory w))
                               (num_timesteps (next_trajectory w))))
       \<and> step ls' = global_step (sess ls')"
proof (cases "sint (summary_period args) \<le> sint (step ls - last_summary_step ls)")
  case True
  from assms True obtain s1 feed s2 pl vl s3 where
    m: "maybe_sync alg (stop_after_sync w) (sess ls) = Inr s1"
    and f: "get_feed_dict col alg (gamma args) (gae_lambda args) (next_trajectory w) s1
              = Inr (feed, s2)"
    and r: "run_summary_train col alg feed (stop_after_train w) s2 = Inr ((pl, vl), s3)"
    and s: "sess ls' = after_run (stop_after_read w)
           (emit (ReadStep (sint (global_step s3)))
             (emit (AddSummary (sint (step ls))) (emit (LogLoss (sint (step ls)) pl vl) s3)))"
    and k: "step ls' = global_step s3"
    by (rule iteration_due)
  show ?thesis
    by (simp add: s k run_summary_train_Inr(1) [OF r] get_feed_dict_Inr(1,6) [OF f]
        maybe_sync_Inr(2) [OF m])
next
  case False
  from assms False obtain s1 feed s2 s3 where
    m: "maybe_sync alg (stop_after_sync w) (sess ls) = Inr s1"
    and f: "get_feed_dict col alg (gamma args) (gae_lambda args) (next_trajectory w) s1
              = Inr (feed, s2)"
    and r: "run_train col alg feed (stop_after_train w) s2 = Inr s3"
    and s: "sess ls' = after_run (stop_after_read w) (emit (ReadStep (sint (global_step s3))) s3)"
    and k: "step ls' = global_step s3"
    by (rule iteration_not_due)
  show ?thesis
    by (simp add: s k run_train_Inr(1) [OF r] get_feed_dict_Inr(1,6) [OF f]
        maybe_sync_Inr(2) [OF m])
qed

lemma iteration_trace:
  assumes "iteration col alg args w ls = Inr ls'"
  obtains upd where
    "trace (sess ls') = trace (sess ls) @ (if sync_ops alg = None then [] else [RunSync])
        @ [NextTrajectory (next_trajectory w), Gae] @ upd @ [ReadStep (sint (step ls'))]"
    and "upd = [RunTrain]
         \<or> (\<exists>pl vl. upd = [RunSummaryTrain, LogLoss (sint (step ls)) pl vl,
                             AddSummary (sint (step ls))])"
proof (cases "sint (summary_period args) \<le> sint (step ls - last_summary_step ls)")
  case True
  from assms True obtain s1 feed s2 pl vl s3 where
    m: "maybe_sync alg (stop_after_sync w) (sess ls) = Inr s1"
    and f: "get_feed_dict col alg (gamma args) (gae_lambda args) (next_trajectory w) s1
              = Inr (feed, s2)"
    and r: "run_summary_train col alg feed (stop_after_train w) s2 = Inr ((pl, vl), s3)"
    and s: "sess ls' = after_run (stop_after_read w)
           (emit (ReadStep (sint (global_step s3)))
             (emit (AddSummary (sint (step ls))) (emit (LogLoss (sint (step ls)) pl vl) s3)))"
    and k: "step ls' = global_step s3"
    by (rule iteration_due)
  have "trace (sess ls') = trace (sess ls) @ (if sync_ops alg = None then [] else [RunSync])
        @ [NextTrajectory (next_trajectory w), Gae]
        @ [RunSummaryTrain, LogLoss (sint (step ls)) pl vl, AddSummary (sint (step ls))]
        @ [ReadStep (sint (step ls'))]"
    by (simp add: s k run_summary_train_Inr(3) [OF r] get_feed_dict_Inr(5) [OF f]
        maybe_sync_Inr(1) [OF m])
  then show ?thesis by (rule that) blast
next
  case False
  from assms False obtain s1 feed s2 s3 where
    m: "maybe_sync alg (stop_after_sync w) (sess ls) = Inr s1"
    and f: "get_feed_dict col alg (gamma args) (gae_lambda args) (next_trajectory w) s1
              = Inr (feed, s2)"
    and r: "run_train col alg feed (stop_after_train w) s2 = Inr s3"
    and s: "sess ls' = after_run (stop_after_read w) (emit (ReadStep (sint (global_step s3))) s3)"
    and k: "step ls' = global_step s3"
    by (rule iteration_not_due)
  have "trace (sess ls') = trace (sess ls) @ (if sync_ops alg = None then [] else [RunSync])
        @ [NextTrajectory (next_trajectory w), Gae] @ [RunTrain] @ [ReadStep (sint (step ls'))]"
    by (simp add: s k run_train_Inr(3) [OF r] get_feed_dict_Inr(5) [OF f]
        maybe_sync_Inr(1) [OF m])
  then show ?thesis by (rule that) blast
qed

lemma complete_iterations_snoc:
  assumes "k < n" and "complete_iterations sync n k' evs k''"
    and "upd = [RunTrain] \<or> (\<exists>pl vl. upd = [RunSummaryTrain, LogLoss k pl vl, AddSummary k])"
  shows "complete_iterations sync n k
       (CheckStop False # (if sync then [RunSync] else []) @ [NextTrajectory t, Gae] @ upd
          @ [ReadStep k'] @ evs) k''"
  using assms(3)
proof
  assume "upd = [RunTrain]"
  then show ?thesis
    using plain_iteration [OF assms(1,2), of t] by simp
next
  assume "\<exists>pl vl. upd = [RunSummaryTrain, LogLoss k pl vl, AddSummary k]"
  then obtain pl vl where "upd = [RunSummaryTrain, LogLoss k pl vl, AddSummary k]" by blast
  then show ?thesis
    using summary_iteration [OF assms(1,2), of t pl vl] by simp
qed

lemma train_loop_exit:
  assumes "train_loop col alg args ws ls = Inr ls'"
    and "\<not> (\<not> stop_requested (sess ls) \<and> sint (step ls) < num_steps args)"
  shows "ls' = ls\<lparr>sess := emit (CheckStop (stop_requested (sess ls))) (sess ls)\<rparr>"
  using assms by (cases ws) (auto simp: should_stop_def split: if_splits)

lemma train_loop_enter:
  assumes "train_loop col alg args ws ls = Inr ls'"
    and "\<not> stop_requested (sess ls)" and "sint (step ls) < num_steps args"
  obtains w ws' ls1 where "ws = w # ws'"
    and "iteration col alg args w (ls\<lparr>sess := emit (CheckStop False) (sess ls)\<rparr>) = Inr ls1"
    and "train_loop col alg args ws' ls1 = Inr ls'"
proof (cases ws)
  case Nil
  with assms show ?thesis by (simp add: should_stop_def)
next
  case (Cons w ws')
  with assms show ?thesis
    by (cases "iteration col alg args w (ls\<lparr>sess := emit (CheckStop False) (sess ls)\<rparr>)")
       (auto simp: should_stop_def intro: that)
qed

lemma train_loop_structure:
  assumes "train_loop col alg args ws ls = Inr ls'"
  shows "\<exists>its. trace (sess ls') = trace (sess ls) @ its @ [CheckStop (stop_requested (sess ls'))]
           \<and> complete_iterations (sync_ops alg \<noteq> None) (num_steps args)
                (sint (step ls)) its (sint (step ls'))
           \<and> (stop_requested (sess ls') \<or> \<not> sint (step ls') < num_steps args)"
  using assms
proof (induction ws arbitrary: ls)
  case Nil
  then have "ls' = ls\<lparr>sess := emit (CheckStop (stop_requested (sess ls))) (sess ls)\<rparr>"
    and "stop_requested (sess ls) \<or> \<not> sint (step ls) < num_steps args"
    by (auto simp: should_stop_def split: if_splits)
  then show ?case
    by (intro exI [of _ "[]"]) (auto intro: no_iteration)
next
  case (Cons w ws)
  show ?case
  proof (cases "\<not> stop_requested (sess ls) \<and> sint (step ls) < num_steps args")
    case False
    with Cons.prems have "ls' = ls\<lparr>sess := emit (CheckStop (stop_requested (sess ls))) (sess ls)\<rparr>"
      by (rule train_loop_exit)
    with False show ?thesis
      by (intro exI [of _ "[]"]) (auto intro: no_iteration)
  next
    case True
    let ?ls0 = "ls\<lparr>sess := emit (CheckStop False) (sess ls)\<rparr>"
    from True Cons.prems obtain ls1 where
      it: "iteration col alg args w ?ls0 = Inr ls1"
      and rest: "train_loop col alg args ws ls1 = Inr ls'"
      by (auto simp: should_stop_def split: sum.splits)
    from iteration_trace [OF it] obtain upd where
      tr: "trace (sess ls1) = trace (sess ?ls0) @ (if sync_ops alg = None then [] else [RunSync])
        @ [NextTrajectory (next_trajectory w), Gae] @ upd @ [ReadStep (sint (step ls1))]"
      and upd: "upd = [RunTrain]
         \<or> (\<exists>pl vl. upd = [RunSummaryTrain, LogLoss (sint (step ?ls0)) pl vl,
                             AddSummary (sint (step ?ls0))])"
      by blast
    from Cons.IH [OF rest] obtain its where
      tr': "trace (sess ls') = trace (sess ls1) @ its @ [CheckStop (stop_requested (sess ls'))]"
      and ci: "complete_iterations (sync_ops alg \<noteq> None) (num_steps args)
                 (sint (step ls1)) its (sint (step ls'))"
      and fin: "stop_requested (sess ls') \<or> \<not> sint (step ls') < num_steps args"
      by blast
    let ?blk = "CheckStop False # (if sync_ops alg \<noteq> None then [RunSync] else [])
        @ [NextTrajectory (next_trajectory w), Gae] @ upd @ [ReadStep (sint (step ls1))] @ its"
    have "complete_iterations (sync_ops alg \<noteq> None) (num_steps args) (sint (step ls)) ?blk
            (sint (step ls'))"
      using True ci upd by (intro complete_iterations_snoc) simp_all
    moreover have "trace (sess ls') = trace (sess ls) @ ?blk @ [CheckStop (stop_requested (sess ls'))]"
      by (simp add: tr' tr)
    ultimately show ?thesis using fin by blast
  qed
qed

lemma pulled_append: "pulled (xs @ ys) = pulled xs @ pulled ys"
  by (induction xs rule: pulled.induct) simp_all

lemma iteration_pulled:
  assumes "iteration col alg args w ls = Inr ls'"
  shows "pulled (trace (sess ls')) = pulled (trace (sess ls)) @ [next_trajectory w]"
proof -
  from iteration_trace [OF assms] obtain upd where
    tr: "trace (sess ls') = trace (sess ls) @ (if sync_ops alg = None then [] else [RunSync])
        @ [NextTrajectory (next_trajectory w), Gae] @ upd @ [ReadStep (sint (step ls'))]"
    and upd: "upd = [RunTrain]
         \<or> (\<exists>pl vl. upd = [RunSummaryTrain, LogLoss (sint (step ls)) pl vl,
                             AddSummary (sint (step ls))])"
    by blast
  from upd have "pulled upd = []" by auto
  then show ?thesis by (simp add: tr pulled_append)
qed

lemma train_loop_steps:
  assumes "train_loop col alg args ws ls = Inr ls'"
    and "list_all (\<lambda>w. well_formed (next_trajectory w)) ws"
  shows "\<exists>N\<le>length ws.
           pulled (trace (sess ls')) = pulled (trace (sess ls)) @ map next_trajectory (take N ws)
         \<and> global_step (sess ls') = global_step (sess ls)
             + word_of_int (\<Sum>w\<leftarrow>take N ws. num_timesteps (next_trajectory w))
         \<and> (step ls' = global_step (sess ls') \<or> N = 0 \<and> step ls' = step ls)"
  using assms
proof (induction ws arbitrary: ls)
  case Nil
  then have "ls' = ls\<lparr>sess := emit (CheckStop (stop_requested (sess ls))) (sess ls)\<rparr>"
    by (auto simp: should_stop_def split: if_splits)
  then show ?case by (simp add: pulled_append)
next
  case (Cons w ws)
  show ?case
  proof (cases "\<not> stop_requested (sess ls) \<and> sint (step ls) < num_steps args")
    case False
    with Cons.prems(1) have "ls' = ls\<lparr>sess := emit (CheckStop (stop_requested (sess ls))) (sess ls)\<rparr>"
      by (rule train_loop_exit)
    then show ?thesis
      by (intro exI [of _ 0]) (simp add: pulled_append)
  next
    case True
    let ?ls0 = "ls\<lparr>sess := emit (CheckStop False) (sess ls)\<rparr>"
    from True Cons.prems obtain ls1 where
      it: "iteration col alg args w ?ls0 = Inr ls1"
      and rest: "train_loop col alg args ws ls1 = Inr ls'"
      by (auto simp: should_stop_def split: sum.splits)
    from Cons.prems(2) have wf: "well_formed (next_trajectory w)"
      and wfs: "list_all (\<lambda>w. well_formed (next_trajectory w)) ws"
      by simp_all
    from wf have len: "length (slice_to (observations (next_trajectory w))
                         (num_timesteps (next_trajectory w))) = nat (num_timesteps (next_trajectory w))"
      by (simp add: well_formed_def slice_to_length)
    from wf have nn: "0 \<le> num_timesteps (next_trajectory w)"
      by (simp add: well_formed_def)
    have gs1: "global_step (sess ls1) = global_step (sess ls)
                 + word_of_int (num_timesteps (next_trajectory w))"
      using iteration_global_step [OF it] nn by (simp add: len)
    have p1: "pulled (trace (sess ls1)) = pulled (trace (sess ls)) @ [next_trajectory w]"
      using iteration_pulled [OF it] by (simp add: pulled_append)
    have k1: "step ls1 = global_step (sess ls1)"
      using iteration_global_step [OF it] by simp
    from Cons.IH [OF rest wfs] obtain N where
      N: "N \<le> length ws"
      and p: "pulled (trace (sess ls')) = pulled (trace (sess ls1)) @ map next_trajectory (take N ws)"
      and gs: "global_step (sess ls') = global_step (sess ls1)
             + word_of_int (\<Sum>w\<leftarrow>take N ws. num_timesteps (next_trajectory w))"
      and k: "step ls' = global_step (sess ls') \<or> N = 0 \<and> step ls' = step ls1"
      by blast
    have "step ls' = global_step (sess ls')"
      using k k1 gs by auto
    then show ?thesis
      using N by (intro exI [of _ "Suc N"]) (simp add: p p1 gs gs1)
  qed
qed



lemma maybe_sync_returns:
  "\<not> stop_requested s \<Longrightarrow> \<exists>s1. maybe_sync alg b s = Inr s1"
  by (simp add: maybe_sync_def run_sync_ops_def split: option.splits)



lemma train_Inr:
  assumes "train col alg args wld s0 = Inr ls'"
  shows "\<not> stop_requested s0"
    and "train_loop col alg args (iterations wld)
       \<lparr>sess = s0\<lparr>stop_requested := stop_requested s0 \<or> stop_after_first_read wld,
                    trace := trace s0 @ [AddGraph, ReadStep (sint (global_step s0)),
                                LogBegin (sint (global_step s0)), StartProducer]\<rparr>,
         step = global_step s0,
         last_summary_step = global_step s0 - summary_period args\<rparr> = Inr ls'"
  using assms
  by (auto simp: train_def run_global_step_def emit_def after_run_def split: if_splits)

lemma example_alg_simps:
  "sync_ops example_alg = Some [(2, 0), (3, 1)]"
  "recurrent (local_policy example_alg) = False"
  "entropy_coef example_alg = 1 / 100"
  "value_loss_coef example_alg = 1 / 4"
  by (simp_all add: example_alg_def init_def Let_def sync_ops_of_def local_policy_of_def)

lemmas example_unfold =
  iteration_def maybe_sync_def example_alg_simps run_sync_ops_def emit_def after_run_def
  get_feed_dict_def Let_def example_collaborators_def example_trajectory_def slice_to_def
  run_summary_train_def run_train_def train_op_def a3c_loss_def a3c_policy_loss_def
  loss_def policy_loss_def v_loss_def elementwise_def reduce_sum_def square_def
  run_global_step_def should_stop_def assign_def

lemma example_run:
  "train example_collaborators example_alg example_args example_world example_session =
     Inr example_final"
  apply (simp add: example_final_def train_def example_world_def example_args_def
      example_session_def)
  apply (simp add: example_unfold)
  apply (simp add: fun_eq_iff numeral_2_eq_2)
  done

lemma example_well_formed:
  "list_all (\<lambda>w. well_formed (next_trajectory w)) (iterations example_world)"
  by (simp add: example_world_def well_formed_def example_trajectory_def)

lemma example_iteration_due:
  "iteration example_collaborators example_alg example_args
      \<lparr>next_trajectory = example_trajectory, stop_after_sync = False,
       stop_after_train = False, stop_after_read = False\<rparr>
      \<lparr>sess = example_session, step = 0, last_summary_step = 0 - 10\<rparr>
   = Inr \<lparr>sess = \<lparr>variables = (\<lambda>v. []), global_step = 2, stop_requested = False,
                 trace = [RunSync, NextTrajectory example_trajectory, Gae, RunSummaryTrain,
                          LogLoss 0 (198 / 100) 0, AddSummary 0, ReadStep 2]\<rparr>,
          step = 2, last_summary_step = 0\<rparr>"
  apply (simp add: example_unfold example_args_def example_session_def)
  apply (simp add: fun_eq_iff numeral_2_eq_2)
  done

lemma example_iteration_not_due:
  "iteration example_collaborators example_alg example_args
      \<lparr>next_trajectory = example_trajectory, stop_after_sync = False,
       stop_after_train = False, stop_after_read = False\<rparr>
      \<lparr>sess = example_session\<lparr>global_step := 2\<rparr>, step = 2, last_summary_step = 0\<rparr>
   = Inr \<lparr>sess = \<lparr>variables = (\<lambda>v. []), global_step = 4, stop_requested = False,
                 trace = [RunSync, NextTrajectory example_trajectory, Gae, RunTrain, ReadStep 4]\<rparr>,
          step = 4, last_summary_step = 0\<rparr>"
  apply (simp add: example_unfold example_args_def example_session_def)
  apply (simp add: fun_eq_iff numeral_2_eq_2)
  done

lemma example_iteration_wrapped:
  "iteration example_collaborators example_alg (example_args\<lparr>summary_period := 2\<rparr>)
      \<lparr>next_trajectory = example_trajectory, stop_after_sync = False,
       stop_after_train = False, stop_after_read = False\<rparr>
      \<lparr>sess = example_session\<lparr>global_step := 2 ^ 63\<rparr>, step = 2 ^ 63,
       last_summary_step = 2 ^ 63 - 2\<rparr>
   = Inr \<lparr>sess = \<lparr>variables = (\<lambda>v. []), global_step = 2 ^ 63 + 2, stop_requested = False,
                 trace = [RunSync, NextTrajectory example_trajectory, Gae, RunSummaryTrain,
                          LogLoss (- (2 ^ 63)) (198 / 100) 0, AddSummary (- (2 ^ 63)),
                          ReadStep (- (2 ^ 63) + 2)]\<rparr>,
          step = 2 ^ 63 + 2, last_summary_step = 2 ^ 63\<rparr>"
  apply (simp add: example_unfold example_args_def example_session_def)
  apply (simp add: fun_eq_iff numeral_2_eq_2)
  done

text \<open>
  C3. One run of the train operation adds the batch size of the fed observations to the
  global step, in 64-bit arithmetic. Over a whole run of \<open>train\<close> whose trajectories
  are well formed: if \<open>N\<close> iterations ran, they consumed the first \<open>N\<close> trajectories
  of the producer, and the global step has advanced by the sum of their
  \<open>num_timesteps\<close>; the step the loop holds is that sum past the starting step unless
  the counter overflows.
\<close>

theorem step_accounting:
  assumes "train col alg args wld s0 = Inr ls'"
    and "list_all (\<lambda>w. well_formed (next_trajectory w)) (iterations wld)"
  shows "\<exists>N\<le>length (iterations wld).
           pulled (trace (sess ls')) = pulled (trace s0) @ map next_trajectory (take N (iterations wld))
         \<and> global_step (sess ls') = global_step s0
             + word_of_int (\<Sum>w\<leftarrow>take N (iterations wld). num_timesteps (next_trajectory w))
         \<and> step ls' = global_step (sess ls')
         \<and> (sint (global_step s0) + (\<Sum>w\<leftarrow>take N (iterations wld). num_timesteps (next_trajectory w)) < 2 ^ 63
              \<longrightarrow> sint (step ls') = sint (global_step s0)
                    + (\<Sum>w\<leftarrow>take N (iterations wld). num_timesteps (next_trajectory w)))
         \<and> (\<forall>feed s s1. train_op col alg feed s = Inr s1
               \<longrightarrow> global_step s1 = global_step s + of_nat (length (feed_inputs feed)))"
proof -
  let ?ls0 = "\<lparr>sess = s0\<lparr>stop_requested := stop_requested s0 \<or> stop_after_first_read wld,
                    trace := trace s0 @ [AddGraph, ReadStep (sint (global_step s0)),
                                LogBegin (sint (global_step s0)), StartProducer]\<rparr>,
         step = global_step s0,
         last_summary_step = global_step s0 - summary_period args\<rparr>"
  have run: "train_loop col alg args (iterations wld) ?ls0 = Inr ls'"
    using assms(1) by (rule train_Inr(2))
  from train_loop_steps [OF run assms(2)] obtain N where
    N: "N \<le> length (iterations wld)"
    and p: "pulled (trace (sess ls')) = pulled (trace (sess ?ls0)) @ map next_trajectory (take N (iterations wld))"
    and gs: "global_step (sess ls') = global_step (sess ?ls0)
             + word_of_int (\<Sum>w\<leftarrow>take N (iterations wld). num_timesteps (next_trajectory w))"
    and k: "step ls' = global_step (sess ls') \<or> N = 0 \<and> step ls' = step ?ls0"
    by blast
  let ?sum = "\<Sum>w\<leftarrow>take N (iterations wld). num_timesteps (next_trajectory w)"
  have nonneg: "0 \<le> ?sum"
    using assms(2)
    by (intro sum_list_nonneg) (auto simp: list_all_iff well_formed_def dest: in_set_takeD)
  have p': "pulled (trace (sess ls')) = pulled (trace s0) @ map next_trajectory (take N (iterations wld))"
    using p by (simp add: pulled_append)
  have gs': "global_step (sess ls') = global_step s0 + word_of_int ?sum"
    using gs by simp
  have k': "step ls' = global_step (sess ls')"
    using k gs' by auto
  have "sint (step ls') = sint (global_step s0) + ?sum" if "sint (global_step s0) + ?sum < 2 ^ 63"
    using k' gs' sint_add_no_overflow [OF nonneg that] by simp
  moreover have "\<forall>feed s s1. train_op col alg feed s = Inr s1
      \<longrightarrow> global_step s1 = global_step s + of_nat (length (feed_inputs feed))"
    by (auto dest: train_op_Inr(1))
  ultimately show ?thesis using N p' gs' k' by blast
qed

theorem step_accounting_witness:
  "train example_collaborators example_alg example_args example_world example_session
     = Inr example_final
   \<and> list_all (\<lambda>w. well_formed (next_trajectory w)) (iterations example_world)
   \<and> (\<Sum>w\<leftarrow>iterations example_world. num_timesteps (next_trajectory w)) = 4
   \<and> global_step (sess example_final) = global_step example_session + 4
   \<and> sint (step example_final) = sint (global_step example_session) + 4"
proof -
  from step_accounting [OF example_run example_well_formed] obtain N where
    N: "N \<le> length (iterations example_world)"
    and p: "pulled (trace (sess example_final)) =
              pulled (trace example_session) @ map next_trajectory (take N (iterations example_world))"
    and gs: "global_step (sess example_final) = global_step example_session
               + word_of_int (\<Sum>w\<leftarrow>take N (iterations example_world). num_timesteps (next_trajectory w))"
    and k: "sint (global_step example_session)
              + (\<Sum>w\<leftarrow>take N (iterations example_world). num_timesteps (next_trajectory w)) < 2 ^ 63
            \<longrightarrow> sint (step example_final) = sint (global_step example_session)
              + (\<Sum>w\<leftarrow>take N (iterations example_world). num_timesteps (next_trajectory w))"
    by blast
  have "length (pulled (trace (sess example_final))) = 2"
    by (simp add: example_final_def)
  with p have "N = 2"
    using N by (simp add: example_session_def example_world_def)
  then have all: "take N (iterations example_world) = iterations example_world"
    by (simp add: example_world_def)
  have total: "(\<Sum>w\<leftarrow>iterations example_world. num_timesteps (next_trajectory w)) = 4"
    by (simp add: example_world_def example_trajectory_def)
  from gs k show ?thesis
    unfolding all total
    using example_run example_well_formed total
    by (simp add: example_session_def)
qed

text \<open>
  C4. In an iteration that returns: if \<open>step - last_summary_step\<close>, computed in
  \<open>int64\<close> as the source computes it, has reached the summary period, the run fetches
  the policy loss and the value loss of the fed batch together with the update, logs them,
  adds a summary at the current step, and sets \<open>last_summary_step\<close> to that step;
  otherwise the run is the update alone, nothing is logged or summarized, and
  \<open>last_summary_step\<close> stays. Either way the variables are those the optimizer leaves.
\<close>

theorem summary_when_due:
  assumes "iteration col alg args w ls = Inr ls'"
  shows "(sint (summary_period args) \<le> sint (step ls - last_summary_step ls) \<longrightarrow>
            (\<exists>s1 feed s2 pl vl.
                maybe_sync alg (stop_after_sync w) (sess ls) = Inr s1
              \<and> get_feed_dict col alg (gamma args) (gae_lambda args) (next_trajectory w) s1
                   = Inr (feed, s2)
              \<and> a3c_policy_loss alg (fst (network col (variables s2) feed)) (feed_advantages feed)
                   (fst (snd (network col (variables s2) feed))) = Inr pl
              \<and> v_loss (snd (snd (network col (variables s2) feed))) (feed_value_targets feed) = Inr vl
              \<and> trace (sess ls') = trace s2
                   @ [RunSummaryTrain, LogLoss (sint (step ls)) pl vl, AddSummary (sint (step ls)),
                      ReadStep (sint (step ls'))]
              \<and> variables (sess ls') = apply_gradients col (variables s2) feed
              \<and> last_summary_step ls' = step ls))
       \<and> (\<not> sint (summary_period args) \<le> sint (step ls - last_summary_step ls) \<longrightarrow>
            (\<exists>s1 feed s2.
                maybe_sync alg (stop_after_sync w) (sess ls) = Inr s1
              \<and> get_feed_dict col alg (gamma args) (gae_lambda args) (next_trajectory w) s1
                   = Inr (feed, s2)
              \<and> trace (sess ls') = trace s2 @ [RunTrain, ReadStep (sint (step ls'))]
              \<and> variables (sess ls') = apply_gradients col (variables s2) feed
              \<and> last_summary_step ls' = last_summary_step ls))"
proof (cases "sint (summary_period args) \<le> sint (step ls - last_summary_step ls)")
  case True
  from assms True obtain s1 feed s2 pl vl s3 where
    m: "maybe_sync alg (stop_after_sync w) (sess ls) = Inr s1"
    and f: "get_feed_dict col alg (gamma args) (gae_lambda args) (next_trajectory w) s1
              = Inr (feed, s2)"
    and r: "run_summary_train col alg feed (stop_after_train w) s2 = Inr ((pl, vl), s3)"
    and s: "sess ls' = after_run (stop_after_read w)
           (emit (ReadStep (sint (global_step s3)))
             (emit (AddSummary (sint (step ls))) (emit (LogLoss (sint (step ls)) pl vl) s3)))"
    and k: "step ls' = global_step s3"
    and l: "last_summary_step ls' = step ls"
    by (rule iteration_due)
  have "trace (sess ls') = trace s2
          @ [RunSummaryTrain, LogLoss (sint (step ls)) pl vl, AddSummary (sint (step ls)),
             ReadStep (sint (step ls'))]"
    by (simp add: s k run_summary_train_Inr(3) [OF r])
  moreover have "variables (sess ls') = apply_gradients col (variables s2) feed"
    by (simp add: s run_summary_train_Inr(2) [OF r])
  ultimately show ?thesis
    using True m f l run_summary_train_Inr(4,5) [OF r] by blast
next
  case False
  from assms False obtain s1 feed s2 s3 where
    m: "maybe_sync alg (stop_after_sync w) (sess ls) = Inr s1"
    and f: "get_feed_dict col alg (gamma args) (gae_lambda args) (next_trajectory w) s1
              = Inr (feed, s2)"
    and r: "run_train col alg feed (stop_after_train w) s2 = Inr s3"
    and s: "sess ls' = after_run (stop_after_read w) (emit (ReadStep (sint (global_step s3))) s3)"
    and k: "step ls' = global_step s3"
    and l: "last_summary_step ls' = last_summary_step ls"
    by (rule iteration_not_due)
  have "trace (sess ls') = trace s2 @ [RunTrain, ReadStep (sint (step ls'))]"
    by (simp add: s k run_train_Inr(3) [OF r])
  moreover have "variables (sess ls') = apply_gradients col (variables s2) feed"
    by (simp add: s run_train_Inr(2) [OF r])
  ultimately show ?thesis
    using False m f l by blast
qed

theorem summary_when_due_witness:
  "iteration example_collaborators example_alg example_args
      \<lparr>next_trajectory = example_trajectory, stop_after_sync = False,
       stop_after_train = False, stop_after_read = False\<rparr>
      \<lparr>sess = example_session, step = 0, last_summary_step = 0 - 10\<rparr>
   = Inr \<lparr>sess = \<lparr>variables = (\<lambda>v. []), global_step = 2, stop_requested = False,
                 trace = [RunSync, NextTrajectory example_trajectory, Gae, RunSummaryTrain,
                          LogLoss 0 (198 / 100) 0, AddSummary 0, ReadStep 2]\<rparr>,
          step = 2, last_summary_step = 0\<rparr>
   \<and> sint (summary_period example_args) \<le> sint (0 - (0 - 10) :: 64 word)
   \<and> iteration example_collaborators example_alg example_args
      \<lparr>next_trajectory = example_trajectory, stop_after_sync = False,
       stop_after_train = False, stop_after_read = False\<rparr>
      \<lparr>sess = example_session\<lparr>global_step := 2\<rparr>, step = 2, last_summary_step = 0\<rparr>
   = Inr \<lparr>sess = \<lparr>variables = (\<lambda>v. []), global_step = 4, stop_requested = False,
                 trace = [RunSync, NextTrajectory example_trajectory, Gae, RunTrain, ReadStep 4]\<rparr>,
          step = 4, last_summary_step = 0\<rparr>
   \<and> \<not> sint (summary_period example_args) \<le> sint (2 - 0 :: 64 word)
   \<and> iteration example_collaborators example_alg (example_args\<lparr>summary_period := 2\<rparr>)
      \<lparr>next_trajectory = example_trajectory, stop_after_sync = False,
       stop_after_train = False, stop_after_read = False\<rparr>
      \<lparr>sess = example_session\<lparr>global_step := 2 ^ 63\<rparr>, step = 2 ^ 63,
       last_summary_step = 2 ^ 63 - 2\<rparr>
   = Inr \<lparr>sess = \<lparr>variables = (\<lambda>v. []), global_step = 2 ^ 63 + 2, stop_requested = False,
                 trace = [RunSync, NextTrajectory example_trajectory, Gae, RunSummaryTrain,
                          LogLoss (- (2 ^ 63)) (198 / 100) 0, AddSummary (- (2 ^ 63)),
                          ReadStep (- (2 ^ 63) + 2)]\<rparr>,
          step = 2 ^ 63 + 2, last_summary_step = 2 ^ 63\<rparr>
   \<and> sint (summary_period (example_args\<lparr>summary_period := 2\<rparr>))
       \<le> sint (2 ^ 63 - (2 ^ 63 - 2) :: 64 word)"
  using summary_when_due [OF example_iteration_due]
    summary_when_due [OF example_iteration_not_due]
    summary_when_due [OF example_iteration_wrapped]
    example_iteration_due example_iteration_not_due example_iteration_wrapped
  by (simp add: example_args_def)




text \<open>
  C10. When \<open>train\<close> enters the loop at all (no stop requested and the restored step
  below \<open>num_steps\<close>), its first iteration runs the update together with the losses
  and the summary, because \<open>last_summary_step\<close> starts at
  \<open>step - summary_period\<close>. This holds for every summary period, so in particular
  for those that are not negative.
\<close>

theorem first_iteration_summarizes:
  assumes "train col alg args wld s0 = Inr ls'"
    and "\<not> stop_requested s0" and "\<not> stop_after_first_read wld"
    and "sint (global_step s0) < num_steps args"
  shows "\<exists>w ws pl vl rest.
           iterations wld = w # ws
         \<and> trace (sess ls') =
             trace s0 @ [AddGraph, ReadStep (sint (global_step s0)),
                         LogBegin (sint (global_step s0)), StartProducer, CheckStop False]
               @ (if sync_ops alg = None then [] else [RunSync])
               @ [NextTrajectory (next_trajectory w), Gae, RunSummaryTrain,
                  LogLoss (sint (global_step s0)) pl vl, AddSummary (sint (global_step s0))]
               @ rest"
proof -
  let ?k = "sint (global_step s0)"
  let ?s = "s0\<lparr>stop_requested := stop_requested s0 \<or> stop_after_first_read wld,
                    trace := trace s0 @ [AddGraph, ReadStep ?k, LogBegin ?k, StartProducer]\<rparr>"
  let ?ls0 = "\<lparr>sess = ?s, step = global_step s0,
               last_summary_step = global_step s0 - summary_period args\<rparr>"
  have run: "train_loop col alg args (iterations wld) ?ls0 = Inr ls'"
    using assms(1) by (rule train_Inr(2))
  have enter: "\<not> stop_requested (sess ?ls0)" "sint (step ?ls0) < num_steps args"
    using assms(2-4) by simp_all
  define ls1' where "ls1' = ?ls0\<lparr>sess := emit (CheckStop False) (sess ?ls0)\<rparr>"
  from train_loop_enter [OF run enter] obtain w ws ls1 where
    ws: "iterations wld = w # ws"
    and it: "iteration col alg args w ls1' = Inr ls1"
    and rest: "train_loop col alg args ws ls1 = Inr ls'"
    unfolding ls1'_def by blast
  have ls1': "step ls1' = global_step s0"
    "last_summary_step ls1' = global_step s0 - summary_period args"
    "trace (sess ls1') = trace s0 @ [AddGraph, ReadStep ?k, LogBegin ?k, StartProducer, CheckStop False]"
    by (simp_all add: ls1'_def)
  have due: "sint (summary_period args) \<le> sint (step ls1' - last_summary_step ls1')"
    by (simp add: ls1')
  from it due obtain s1 feed s2 pl vl s3 where
    m: "maybe_sync alg (stop_after_sync w) (sess ls1') = Inr s1"
    and f: "get_feed_dict col alg (gamma args) (gae_lambda args) (next_trajectory w) s1
              = Inr (feed, s2)"
    and r: "run_summary_train col alg feed (stop_after_train w) s2 = Inr ((pl, vl), s3)"
    and s: "sess ls1 = after_run (stop_after_read w)
           (emit (ReadStep (sint (global_step s3)))
             (emit (AddSummary (sint (step ls1'))) (emit (LogLoss (sint (step ls1')) pl vl) s3)))"
    by (rule iteration_due)
  have t1: "trace (sess ls1) = trace s0 @ [AddGraph, ReadStep ?k, LogBegin ?k, StartProducer, CheckStop False]
               @ (if sync_ops alg = None then [] else [RunSync])
               @ [NextTrajectory (next_trajectory w), Gae, RunSummaryTrain,
                  LogLoss ?k pl vl, AddSummary ?k] @ [ReadStep (sint (global_step s3))]"
    by (simp add: s run_summary_train_Inr(3) [OF r] get_feed_dict_Inr(5) [OF f]
        maybe_sync_Inr(1) [OF m] ls1')
  from train_loop_structure [OF rest] obtain its where
    "trace (sess ls') = trace (sess ls1) @ its @ [CheckStop (stop_requested (sess ls'))]"
    by blast
  then have "trace (sess ls') = trace s0 @ [AddGraph, ReadStep ?k, LogBegin ?k, StartProducer, CheckStop False]
               @ (if sync_ops alg = None then [] else [RunSync])
               @ [NextTrajectory (next_trajectory w), Gae, RunSummaryTrain,
                  LogLoss ?k pl vl, AddSummary ?k]
               @ (ReadStep (sint (global_step s3)) # its @ [CheckStop (stop_requested (sess ls'))])"
    by (simp add: t1)
  with ws show ?thesis by blast
qed

theorem first_iteration_summarizes_witness:
  "train example_collaborators example_alg example_args example_world example_session
     = Inr example_final
   \<and> \<not> stop_requested example_session
   \<and> \<not> stop_after_first_read example_world
   \<and> sint (global_step example_session) < num_steps example_args
   \<and> take 11 (trace (sess example_final)) =
        [AddGraph, ReadStep 0, LogBegin 0, StartProducer, CheckStop False, RunSync,
         NextTrajectory example_trajectory, Gae, RunSummaryTrain,
         LogLoss 0 (198 / 100) 0, AddSummary 0]"
proof -
  have h: "\<not> stop_requested example_session" "\<not> stop_after_first_read example_world"
    "sint (global_step example_session) < num_steps example_args"
    by (simp_all add: example_session_def example_world_def example_args_def)
  from first_iteration_summarizes [OF example_run h]
  show ?thesis
    using example_run h by (simp add: example_final_def)
qed




subsection \<open>The managed session\<close>

text \<open>
  C6. Where restoring the checkpoint (if one is given) succeeds: without a checkpoint
  period and without a checkpoint saver among the hooks, \<open>_managed_session\<close> logs the
  warning and still opens the session, with the hooks as given, and \<open>train\<close> runs its
  loop in it; with a saver among the hooks nothing is logged; with a checkpoint period, a
  checkpoint saver hook with that period and the checkpoint directory is added to the hooks
  and nothing is logged.
\<close>

theorem missing_saver_warns:
  assumes "\<forall>c. checkpoint sargs = Some c \<longrightarrow> restorable c"
  shows "(checkpoint_period sargs = None
            \<and> \<not> list_ex is_checkpoint_saver (case hooks sargs of None \<Rightarrow> [] | Some hs \<Rightarrow> hs)
          \<longrightarrow> (\<exists>opened.
                 managed_session restorable (logdir sargs) (checkpoint sargs) None
                   (hooks sargs) (config sargs) = Inr opened
               \<and> warnings opened = [no_saver_warning]
               \<and> session_hooks opened = (case hooks sargs of None \<Rightarrow> [] | Some hs \<Rightarrow> hs)
               \<and> train_managed restorable col alg args sargs wld s0
                   = map_sum id (Pair opened) (train col alg args wld s0)))
       \<and> (checkpoint_period sargs = None
            \<and> list_ex is_checkpoint_saver (case hooks sargs of None \<Rightarrow> [] | Some hs \<Rightarrow> hs)
          \<longrightarrow> (\<exists>opened.
                 managed_session restorable (logdir sargs) (checkpoint sargs) None
                   (hooks sargs) (config sargs) = Inr opened
               \<and> warnings opened = []
               \<and> session_hooks opened = (case hooks sargs of None \<Rightarrow> [] | Some hs \<Rightarrow> hs)))
       \<and> (\<forall>p. checkpoint_period sargs = Some p
          \<longrightarrow> (\<exists>opened.
                 managed_session restorable (logdir sargs) (checkpoint sargs) (Some p)
                   (hooks sargs) (config sargs) = Inr opened
               \<and> warnings opened = []
               \<and> session_hooks opened
                   = (case hooks sargs of None \<Rightarrow> [] | Some hs \<Rightarrow> hs)
                       @ [CheckpointSaverHook (logdir sargs) p]))"
proof (cases "checkpoint sargs")
  case None
  then show ?thesis
    by (auto simp: managed_session_def train_managed_def Let_def split: sum.splits)
next
  case (Some c)
  with assms have "restorable c" by simp
  with Some show ?thesis
    by (auto simp: managed_session_def train_managed_def Let_def split: sum.splits)
qed

theorem missing_saver_warns_witness:
  "managed_session (\<lambda>c. False) ''logs'' None None (Some [OtherHook 0]) USE_DEFAULT
     = Inr \<lparr>session_hooks = [OtherHook 0], session_config = Some get_default_config,
            restored_from = None, warnings = [no_saver_warning]\<rparr>
   \<and> managed_session (\<lambda>c. False) ''logs'' None (Some 1000) None USE_DEFAULT
     = Inr \<lparr>session_hooks = [CheckpointSaverHook ''logs'' 1000],
            session_config = Some get_default_config,
            restored_from = None, warnings = []\<rparr>
   \<and> train_managed (\<lambda>c. False) example_collaborators example_alg example_args
        \<lparr>logdir = ''logs'', checkpoint = None, checkpoint_period = None,
         hooks = Some [OtherHook 0], config = USE_DEFAULT\<rparr> example_world example_session
     = Inr (\<lparr>session_hooks = [OtherHook 0], session_config = Some get_default_config,
             restored_from = None, warnings = [no_saver_warning]\<rparr>, example_final)"
proof -
  let ?a = "\<lparr>logdir = ''logs'', checkpoint = None, checkpoint_period = None,
         hooks = Some [OtherHook 0], config = USE_DEFAULT\<rparr>"
  let ?b = "\<lparr>logdir = ''logs'', checkpoint = None, checkpoint_period = Some 1000,
         hooks = None, config = USE_DEFAULT\<rparr>"
  have ha: "\<forall>c. checkpoint ?a = Some c \<longrightarrow> (\<lambda>c. False) c"
    and hb: "\<forall>c. checkpoint ?b = Some c \<longrightarrow> (\<lambda>c. False) c"
    by simp_all
  from missing_saver_warns [OF ha, of example_collaborators example_alg example_args
      example_world example_session]
    missing_saver_warns [OF hb, of example_collaborators example_alg example_args
      example_world example_session]
  show ?thesis
    by (simp add: example_run managed_session_def train_managed_def)
qed

subsection \<open>Evaluation\<close>














end
